theory Spec2Isabelle
  imports Complex_Main
begin

section \<open>The SEO content analyzer: the scoring functions of \<open>src/pages/Index.tsx\<close>\<close>

text \<open>
  The page scores a pasted text with four functions (\<open>calculateReadability\<close>,
  \<open>analyzeKeywords\<close>, \<open>analyzeHeadings\<close>, \<open>calculateWordCount\<close>) and derives
  suggestions from them (\<open>getSEOSuggestions\<close>). The functions are pure; what they use of
  JavaScript (strings, regular expressions, a plain object as a counter, \<open>Array.sort\<close>)
  is modelled below as ECMAScript defines it.

  Numbers: a JavaScript number is an IEEE double. Counts are modelled as \<open>nat\<close> and
  scores as \<open>real\<close>, that is with exact arithmetic: rounding of the double operations
  is not modelled, so a score of the model can differ from the engine's in the last
  digits (and a comparison of such a score with a threshold can differ when the exact
  score is the threshold).
\<close>

subsection \<open>Strings and character classes\<close>

text \<open>
  A JavaScript string is a sequence of UTF-16 code units, and \<open>length\<close>, the regular
  expressions (none has the \<open>u\<close> flag) and \<open>trim\<close> work on code units. A code unit is
  modelled by its number.
\<close>

type_synonym jschar = nat
type_synonym jsstring = "nat list"

definition js :: "string \<Rightarrow> jsstring" where
  \<comment> \<open>an ASCII literal as code units\<close>
  "js s = map of_char s"

definition ch :: "char \<Rightarrow> jschar" where
  \<comment> \<open>the code unit of an ASCII character\<close>
  "ch c = of_char c"

definition isLineTerminator :: "jschar \<Rightarrow> bool" where
  \<comment> \<open>LF, CR, LINE SEPARATOR, PARAGRAPH SEPARATOR\<close>
  "isLineTerminator c = (c = 0x0A \<or> c = 0x0D \<or> c = 0x2028 \<or> c = 0x2029)"

definition isWhiteSpace :: "jschar \<Rightarrow> bool" where
  \<comment> \<open>the class \<open>\s\<close>, which is also what \<open>trim\<close> strips: WhiteSpace and LineTerminator\<close>
  "isWhiteSpace c =
     ((0x09 \<le> c \<and> c \<le> 0x0D) \<or> c = 0x20 \<or> c = 0xA0 \<or> c = 0x1680
      \<or> (0x2000 \<le> c \<and> c \<le> 0x200A) \<or> c = 0x2028 \<or> c = 0x2029 \<or> c = 0x202F
      \<or> c = 0x205F \<or> c = 0x3000 \<or> c = 0xFEFF)"

definition isLowerAZ :: "jschar \<Rightarrow> bool" where
  \<comment> \<open>the class \<open>[a-z]\<close>\<close>
  "isLowerAZ c = (0x61 \<le> c \<and> c \<le> 0x7A)"

definition isWordChar :: "jschar \<Rightarrow> bool" where
  \<comment> \<open>the word characters of \<open>\b\<close>: \<open>[A-Za-z0-9_]\<close>\<close>
  "isWordChar c =
     ((0x61 \<le> c \<and> c \<le> 0x7A) \<or> (0x41 \<le> c \<and> c \<le> 0x5A)
      \<or> (0x30 \<le> c \<and> c \<le> 0x39) \<or> c = 0x5F)"

definition isSentenceEnd :: "jschar \<Rightarrow> bool" where
  \<comment> \<open>the class \<open>[.!?]\<close>\<close>
  "isSentenceEnd c = (c = 0x2E \<or> c = 0x21 \<or> c = 0x3F)"

definition dot :: "jschar \<Rightarrow> bool" where
  \<comment> \<open>the class \<open>.\<close> (no \<open>s\<close> flag): anything but a line terminator\<close>
  "dot c = (\<not> isLineTerminator c)"

definition lit :: "jschar \<Rightarrow> jschar \<Rightarrow> bool" where
  \<comment> \<open>a literal character of a pattern without the \<open>i\<close> flag\<close>
  "lit a c = (c = a)"

definition canonicalize :: "jschar \<Rightarrow> jschar" where
  \<comment> \<open>Canonicalize of a pattern with the \<open>i\<close> flag and no \<open>u\<close> flag: the upper-case
      form of the code unit. ECMAScript never maps a code unit of 128 or more to one
      below 128, and the patterns here name ASCII characters only, so every code unit
      of 128 or more is left as it is.\<close>
  "canonicalize c = (if 0x61 \<le> c \<and> c \<le> 0x7A then c - 0x20 else c)"

definition liti :: "jschar \<Rightarrow> jschar \<Rightarrow> bool" where
  \<comment> \<open>a literal character of a pattern with the \<open>i\<close> flag\<close>
  "liti a c = (canonicalize c = canonicalize a)"

definition notGt :: "jschar \<Rightarrow> bool" where
  \<comment> \<open>the class \<open>[^>]\<close>\<close>
  "notGt c = (c \<noteq> 0x3E)"

definition digit2to6 :: "jschar \<Rightarrow> bool" where
  \<comment> \<open>the class \<open>[2-6]\<close>\<close>
  "digit2to6 c = (0x32 \<le> c \<and> c \<le> 0x36)"

fun toLowerUnit :: "jschar \<Rightarrow> jsstring" where
  \<comment> \<open>\<open>toLowerCase\<close> on one code unit. ASCII and Latin-1 capitals move by 32; U+0130
      becomes \<open>i\<close> followed by U+0307 and U+212A (KELVIN SIGN) becomes \<open>k\<close>. Every other
      code unit of 128 or more lower-cases to code units of 128 or more; which ones
      does not matter to \<open>analyzeKeywords\<close>, whose pattern tells only \<open>[a-z]\<close>,
      \<open>[A-Z0-9_]\<close> and the rest apart, so they are left as they are.\<close>
  "toLowerUnit c =
     (if 0x41 \<le> c \<and> c \<le> 0x5A then [c + 0x20]
      else if 0xC0 \<le> c \<and> c \<le> 0xDE \<and> c \<noteq> 0xD7 then [c + 0x20]
      else if c = 0x130 then [0x69, 0x307]
      else if c = 0x212A then [0x6B]
      else [c])"

definition toLowerCase :: "jsstring \<Rightarrow> jsstring" where
  "toLowerCase s = concat (map toLowerUnit s)"

definition trim :: "jsstring \<Rightarrow> jsstring" where
  "trim s = rev (dropWhile isWhiteSpace (rev (dropWhile isWhiteSpace s)))"

fun startsWith :: "jsstring \<Rightarrow> jsstring \<Rightarrow> bool" where
  "startsWith s [] = True"
| "startsWith [] (b # t) = False"
| "startsWith (a # s) (b # t) = (a = b \<and> startsWith s t)"

fun includes_js :: "jsstring \<Rightarrow> jsstring \<Rightarrow> bool" where
  \<comment> \<open>\<open>s.includes(t)\<close>: \<open>t\<close> occurs in \<open>s\<close> at some position\<close>
  "includes_js [] t = (t = [])"
| "includes_js (c # cs) t = (startsWith (c # cs) t \<or> includes_js cs t)"

fun join :: "jsstring \<Rightarrow> jsstring list \<Rightarrow> jsstring" where
  "join sep [] = []"
| "join sep [x] = x"
| "join sep (x # y # ys) = x @ sep @ join sep (y # ys)"

subsection \<open>Regular expressions\<close>

text \<open>
  The patterns of the source use literals, classes, greedy quantifiers on a single
  character or class, \<open>^\<close> (always with the \<open>m\<close> flag), \<open>\b\<close>, sequence and alternation.
\<close>

datatype regex =
    Eps
  | Cls "jschar \<Rightarrow> bool"
  | Rep nat "jschar \<Rightarrow> bool"
  | Bol
  | WordB
  | Seq regex regex
  | Alt regex regex

text \<open>
  \<open>Cls p\<close> is one character of the class \<open>p\<close>; \<open>Rep n p\<close> is \<open>p{n,}\<close> (so \<open>p*\<close> is
  \<open>Rep 0 p\<close> and \<open>p+\<close> is \<open>Rep 1 p\<close>); \<open>Bol\<close> is \<open>^\<close> under the \<open>m\<close> flag.

  A matcher state is the text matched so far (reversed), the character before the
  current position (\<open>None\<close> at the start of the input) and the rest of the input.
  \<open>rmatch\<close> lists the states a pattern can end in, in the order in which the
  backtracking matcher of ECMAScript tries them: its first element is the match that
  JavaScript reports.
\<close>

type_synonym mstate = "jsstring \<times> jschar option \<times> jsstring"

fun greedy :: "(jschar \<Rightarrow> bool) \<Rightarrow> nat \<Rightarrow> mstate \<Rightarrow> mstate list" where
  "greedy p n (m, prev, []) = (if n = 0 then [(m, prev, [])] else [])"
| "greedy p n (m, prev, c # cs) =
     (if p c then greedy p (n - 1) (c # m, Some c, cs) else [])
     @ (if n = 0 then [(m, prev, c # cs)] else [])"

definition wordBefore :: "jschar option \<Rightarrow> bool" where
  "wordBefore prev = (case prev of None \<Rightarrow> False | Some c \<Rightarrow> isWordChar c)"

definition wordAfter :: "jsstring \<Rightarrow> bool" where
  "wordAfter s = (case s of [] \<Rightarrow> False | c # cs \<Rightarrow> isWordChar c)"

fun rmatch :: "regex \<Rightarrow> mstate \<Rightarrow> mstate list" where
  "rmatch Eps st = [st]"
| "rmatch (Cls p) (m, prev, s) =
     (case s of [] \<Rightarrow> [] | c # cs \<Rightarrow> if p c then [(c # m, Some c, cs)] else [])"
| "rmatch (Rep n p) st = greedy p n st"
| "rmatch Bol (m, prev, s) =
     (case prev of
        None \<Rightarrow> [(m, prev, s)]
      | Some c \<Rightarrow> if isLineTerminator c then [(m, prev, s)] else [])"
| "rmatch WordB (m, prev, s) =
     (if wordBefore prev = wordAfter s then [] else [(m, prev, s)])"
| "rmatch (Seq a b) st = concat (map (rmatch b) (rmatch a st))"
| "rmatch (Alt a b) st = rmatch a st @ rmatch b st"

definition seqs :: "regex list \<Rightarrow> regex" where
  "seqs rs = foldr Seq rs Eps"

definition matchAt :: "regex \<Rightarrow> jschar option \<Rightarrow> jsstring
    \<Rightarrow> (jsstring \<times> jschar option \<times> jsstring) option" where
  \<comment> \<open>the match at the current position, if any: the matched text, the character
      before the end of the match, and the input after the match\<close>
  "matchAt r prev s =
     (case rmatch r ([], prev, s) of
        [] \<Rightarrow> None
      | (m, prev', rest) # _ \<Rightarrow> Some (rev m, prev', rest))"

fun search :: "regex \<Rightarrow> jschar option \<Rightarrow> jsstring
    \<Rightarrow> (jsstring \<times> jsstring \<times> jschar option \<times> jsstring) option" where
  \<comment> \<open>RegExpBuiltinExec without the \<open>y\<close> flag: the first position from the current
      one on (the end of the input included) where the pattern matches. The result is
      the text skipped, the text matched, and where the match ends.\<close>
  "search r prev [] =
     (case matchAt r prev [] of
        None \<Rightarrow> None
      | Some (m, prev', rest) \<Rightarrow> Some ([], m, prev', rest))"
| "search r prev (c # cs) =
     (case matchAt r prev (c # cs) of
        Some (m, prev', rest) \<Rightarrow> Some ([], m, prev', rest)
      | None \<Rightarrow>
          (case search r (Some c) cs of
             None \<Rightarrow> None
           | Some (sk, m, prev', rest) \<Rightarrow> Some (c # sk, m, prev', rest)))"

definition test :: "regex \<Rightarrow> jsstring \<Rightarrow> bool" where
  \<comment> \<open>\<open>r.test(s)\<close> for a pattern without the \<open>g\<close> flag\<close>
  "test r s = (search r None s \<noteq> None)"

text \<open>
  A match consumes exactly what it reports: the matched text and the rest make up the
  input. The loops below terminate by it.
\<close>

lemma greedy_length:
  "(m', p', rest) \<in> set (greedy p n (m, prev, s)) \<Longrightarrow>
   length m' + length rest = length m + length s"
  by (induction p n "(m, prev, s)" arbitrary: m prev s rule: greedy.induct)
     (auto split: if_splits)

lemma rmatch_length:
  "(m', p', rest) \<in> set (rmatch r (m, prev, s)) \<Longrightarrow>
   length m' + length rest = length m + length s"
proof (induction r arbitrary: m prev s m' p' rest)
  case (Seq a b)
  from Seq.prems obtain m1 p1 s1 where
    a: "(m1, p1, s1) \<in> set (rmatch a (m, prev, s))" and
    b: "(m', p', rest) \<in> set (rmatch b (m1, p1, s1))"
    by auto
  from Seq.IH(1)[OF a] Seq.IH(2)[OF b] show ?case by simp
qed (auto simp: greedy_length split: list.splits if_splits option.splits)

lemma matchAt_length:
  "matchAt r prev s = Some (m, p', rest) \<Longrightarrow> length m + length rest = length s"
  using rmatch_length[of _ p' rest r "[]" prev s]
  by (auto simp: matchAt_def split: list.splits)

lemma search_length:
  "search r prev s = Some (sk, m, p', rest) \<Longrightarrow>
   length sk + length m + length rest = length s"
  by (induction r prev s arbitrary: sk m p' rest rule: search.induct)
     (auto split: option.splits dest: matchAt_length)

lemma search_rest_le:
  "search r prev s = Some (sk, m, p', rest) \<Longrightarrow> length rest \<le> length s"
  using search_length by fastforce

lemma search_rest_less:
  "search r prev s = Some (sk, m, p', rest) \<Longrightarrow> m \<noteq> [] \<Longrightarrow> length rest < length s"
  using search_length[of r prev s sk m p' rest] by (cases m) auto

lemma matchAt_rest_le:
  "matchAt r prev s = Some (m, p', rest) \<Longrightarrow> length rest \<le> length s"
  using matchAt_length by fastforce

lemma matchAt_rest_less:
  "matchAt r prev s = Some (m, p', rest) \<Longrightarrow> m \<noteq> [] \<Longrightarrow> length rest < length s"
  using matchAt_length[of r prev s m p' rest] by (cases m) auto

function matches :: "regex \<Rightarrow> jschar option \<Rightarrow> jsstring \<Rightarrow> jsstring list" where
  \<comment> \<open>the loop of \<open>String.prototype.match\<close> for a pattern with the \<open>g\<close> flag: every
      match from the current position on; after an empty match the position advances
      by one\<close>
  "matches r prev s =
     (case search r prev s of
        None \<Rightarrow> []
      | Some (sk, m, prev', rest) \<Rightarrow>
          m # (if m = [] then (case rest of [] \<Rightarrow> [] | c # cs \<Rightarrow> matches r (Some c) cs)
               else matches r prev' rest))"
  by pat_completeness auto
termination
  by (relation "measure (\<lambda>(r, prev, s). length s)")
     (auto dest: search_rest_less search_rest_le)

declare matches.simps [simp del]

definition match_g :: "regex \<Rightarrow> jsstring \<Rightarrow> jsstring list option" where
  \<comment> \<open>\<open>s.match(r)\<close> for a pattern with the \<open>g\<close> flag: \<open>null\<close> (\<open>None\<close>) when nothing
      matches, the array of the matched texts otherwise\<close>
  "match_g r s = (case matches r None s of [] \<Rightarrow> None | m # ms \<Rightarrow> Some (m # ms))"

function replace_g :: "regex \<Rightarrow> jsstring \<Rightarrow> jschar option \<Rightarrow> jsstring \<Rightarrow> jsstring" where
  \<comment> \<open>\<open>s.replace(r, rep)\<close> for a pattern with the \<open>g\<close> flag and a replacement text
      without \<open>$\<close>: every match is replaced\<close>
  "replace_g r rep prev s =
     (case search r prev s of
        None \<Rightarrow> s
      | Some (sk, m, prev', rest) \<Rightarrow>
          sk @ rep @
          (if m = [] then (case rest of [] \<Rightarrow> [] | c # cs \<Rightarrow> c # replace_g r rep (Some c) cs)
           else replace_g r rep prev' rest))"
  by pat_completeness auto
termination
  by (relation "measure (\<lambda>(r, rep, prev, s). length s)")
     (auto dest: search_rest_less search_rest_le)

declare replace_g.simps [simp del]

function split_loop :: "regex \<Rightarrow> jsstring \<Rightarrow> jschar option \<Rightarrow> jsstring \<Rightarrow> jsstring list" where
  \<comment> \<open>the loop of \<open>RegExp.prototype[Symbol.split]\<close>: \<open>acc\<close> is the text since the end
      of the last separator (reversed). The pattern is tried at every position before
      the end of the input; a match that ends where the last separator ended (an empty
      match there) is passed over.\<close>
  "split_loop r acc prev [] = [rev acc]"
| "split_loop r acc prev (c # cs) =
     (case matchAt r prev (c # cs) of
        None \<Rightarrow> split_loop r (c # acc) (Some c) cs
      | Some (m, prev', rest) \<Rightarrow>
          if acc = [] \<and> m = [] then split_loop r (c # acc) (Some c) cs
          else rev acc # split_loop r [] prev' rest)"
  by pat_completeness auto
termination
  by (relation "measure (\<lambda>(r, acc, prev, s). 2 * length s + (if acc = [] then 0 else 1))")
     (auto dest: matchAt_rest_less matchAt_rest_le)

definition split :: "regex \<Rightarrow> jsstring \<Rightarrow> jsstring list" where
  \<comment> \<open>\<open>s.split(r)\<close> without a limit. On the empty string the result is \<open>[]\<close> when
      the pattern matches it and \<open>[""]\<close> otherwise.\<close>
  "split r s =
     (if s = [] then (case matchAt r None [] of None \<Rightarrow> [[]] | Some z \<Rightarrow> [])
      else split_loop r [] None s)"

subsection \<open>The patterns of the source\<close>

definition wsPattern :: regex where
  \<comment> \<open>\<open>/\s+/\<close>\<close>
  "wsPattern = Rep 1 isWhiteSpace"

definition sentencePattern :: regex where
  \<comment> \<open>\<open>/[.!?]+/\<close>\<close>
  "sentencePattern = Rep 1 isSentenceEnd"

definition keywordPattern :: regex where
  \<comment> \<open>\<open>/\b[a-z]{3,}\b/g\<close>\<close>
  "keywordPattern = seqs [WordB, Rep 3 isLowerAZ, WordB]"

definition h1Pattern :: regex where
  \<comment> \<open>\<open>/^#\s.+|<h1[^>]*>.+<\/h1>/im\<close>\<close>
  "h1Pattern =
     Alt (seqs [Bol, Cls (liti (ch CHR ''#'')), Cls isWhiteSpace, Rep 1 dot])
         (seqs [Cls (liti (ch CHR ''<'')), Cls (liti (ch CHR ''h'')), Cls (liti (ch CHR ''1'')),
                Rep 0 notGt, Cls (liti (ch CHR ''>'')), Rep 1 dot,
                Cls (liti (ch CHR ''<'')), Cls (liti (ch CHR ''/'')), Cls (liti (ch CHR ''h'')),
                Cls (liti (ch CHR ''1'')), Cls (liti (ch CHR ''>''))])"

definition subheadingPattern :: regex where
  \<comment> \<open>\<open>/^#{2,}\s.+|<h[2-6][^>]*>.+<\/h[2-6]>/gim\<close>\<close>
  "subheadingPattern =
     Alt (seqs [Bol, Rep 2 (liti (ch CHR ''#'')), Cls isWhiteSpace, Rep 1 dot])
         (seqs [Cls (liti (ch CHR ''<'')), Cls (liti (ch CHR ''h'')), Cls digit2to6,
                Rep 0 notGt, Cls (liti (ch CHR ''>'')), Rep 1 dot,
                Cls (liti (ch CHR ''<'')), Cls (liti (ch CHR ''/'')), Cls (liti (ch CHR ''h'')),
                Cls digit2to6, Cls (liti (ch CHR ''>''))])"

text \<open>
  Under the \<open>i\<close> flag a class matches a character when some member of the class has the
  same canonical form. No character outside \<open>\s\<close>, \<open>.\<close>, \<open>[^>]\<close> or \<open>[2-6]\<close> has the
  canonical form of one inside (white space, digits and \<open>>\<close> have no case), so the
  classes are used as they are.
\<close>

subsection \<open>The counter object and \<open>Array.prototype.sort\<close>\<close>

text \<open>
  \<open>keywordCounts\<close> is a plain object created by \<open>{}\<close>: its prototype is
  \<open>Object.prototype\<close>, so reading a key it does not own finds the property of that
  name on \<open>Object.prototype\<close>, if there is one. The values that can turn up in it
  are numbers, the built-in functions of \<open>Object.prototype\<close>, and the strings that
  \<open>+ 1\<close> makes of such a function: \<open>FunText f k\<close> is the source text of the built-in
  function \<open>f\<close> (\<open>function f() { [native code] }\<close>) followed by \<open>k\<close> digits \<open>1\<close>.
\<close>

datatype jsval = Num nat | Fun jsstring | FunText jsstring nat

definition objectPrototype :: "jsstring \<Rightarrow> jsval option" where
  \<comment> \<open>the properties of \<open>Object.prototype\<close>; the accessor \<open>__proto__\<close> is left out\<close>
  "objectPrototype k =
     (if k = js ''constructor'' then Some (Fun (js ''Object''))
      else if k \<in> set [js ''hasOwnProperty'', js ''isPrototypeOf'',
                js ''propertyIsEnumerable'', js ''toLocaleString'', js ''toString'',
                js ''valueOf'', js ''__defineGetter__'', js ''__defineSetter__'',
                js ''__lookupGetter__'', js ''__lookupSetter__'']
      then Some (Fun k)
      else None)"

type_synonym jsobject = "(jsstring \<times> jsval) list"

text \<open>
  The own properties of the object, in the order of their creation: no key here is an
  integer index, so this is the order of \<open>Object.keys\<close> and \<open>Object.entries\<close>.
\<close>

definition getProp :: "jsobject \<Rightarrow> jsstring \<Rightarrow> jsval option" where
  \<comment> \<open>\<open>obj[k]\<close>; \<open>None\<close> is \<open>undefined\<close>\<close>
  "getProp obj k = (case map_of obj k of Some v \<Rightarrow> Some v | None \<Rightarrow> objectPrototype k)"

fun setProp :: "jsobject \<Rightarrow> jsstring \<Rightarrow> jsval \<Rightarrow> jsobject" where
  \<comment> \<open>\<open>obj[k] = v\<close>: an own property keeps its place, a new one goes last (the
      properties of \<open>Object.prototype\<close> are writable data properties, so assigning
      to an inherited name creates an own property)\<close>
  "setProp [] k v = [(k, v)]"
| "setProp ((k', v') # obj) k v =
     (if k' = k then (k, v) # obj else (k', v') # setProp obj k v)"

definition truthy :: "jsval \<Rightarrow> bool" where
  "truthy v = (case v of Num n \<Rightarrow> n \<noteq> 0 | Fun f \<Rightarrow> True | FunText f k \<Rightarrow> True)"

definition orZero :: "jsval option \<Rightarrow> jsval" where
  \<comment> \<open>\<open>x || 0\<close>\<close>
  "orZero x = (case x of None \<Rightarrow> Num 0 | Some v \<Rightarrow> if truthy v then v else Num 0)"

definition plusOne :: "jsval \<Rightarrow> jsval" where
  \<comment> \<open>\<open>x + 1\<close>: addition on numbers, concatenation once \<open>x\<close> is not a number\<close>
  "plusOne v =
     (case v of Num n \<Rightarrow> Num (n + 1) | Fun f \<Rightarrow> FunText f 1 | FunText f k \<Rightarrow> FunText f (k + 1))"

definition toNumber :: "jsval \<Rightarrow> int option" where
  \<comment> \<open>ToNumber; \<open>None\<close> is \<open>NaN\<close>\<close>
  "toNumber v = (case v of Num n \<Rightarrow> Some (int n) | Fun f \<Rightarrow> None | FunText f k \<Rightarrow> None)"

definition minus_js :: "jsval \<Rightarrow> jsval \<Rightarrow> int option" where
  \<comment> \<open>\<open>x - y\<close>\<close>
  "minus_js x y =
     (case toNumber x of
        None \<Rightarrow> None
      | Some a \<Rightarrow> (case toNumber y of None \<Rightarrow> None | Some b \<Rightarrow> Some (a - b)))"

definition sortCompare :: "('a \<Rightarrow> 'a \<Rightarrow> int option) \<Rightarrow> 'a \<Rightarrow> 'a \<Rightarrow> int" where
  \<comment> \<open>SortCompare with a comparison function: \<open>NaN\<close> counts as \<open>+0\<close>\<close>
  "sortCompare cmp x y = (case cmp x y of None \<Rightarrow> 0 | Some v \<Rightarrow> v)"

fun insertSorted :: "('a \<Rightarrow> 'a \<Rightarrow> int option) \<Rightarrow> 'a \<Rightarrow> 'a list \<Rightarrow> 'a list" where
  "insertSorted cmp x [] = [x]"
| "insertSorted cmp x (y # ys) =
     (if 0 < sortCompare cmp x y then y # insertSorted cmp x ys else x # y # ys)"

definition sort_js :: "('a \<Rightarrow> 'a \<Rightarrow> int option) \<Rightarrow> 'a list \<Rightarrow> 'a list" where
  \<comment> \<open>\<open>xs.sort(cmp)\<close>. ECMAScript asks for a stable sort: an element moves behind a
      later one only when the comparison says so. For a comparison function that is a
      consistent ordering every engine gives this result; it is written here as an
      insertion sort. When the comparison function is not a consistent ordering (here:
      when an entry's count is not a number), ECMAScript leaves the order to the
      engine; two such entries stay in their order in every engine, with more entries
      the engine's order need not be this one.\<close>
  "sort_js cmp xs = foldr (insertSorted cmp) xs []"

subsection \<open>The analysis functions\<close>

definition readabilityWords :: "jsstring \<Rightarrow> nat" where
  \<comment> \<open>\<open>const words = text.trim().split(/\s+/).length\<close>\<close>
  "readabilityWords text = length (split wsPattern (trim text))"

definition readabilitySentences :: "jsstring \<Rightarrow> nat" where
  \<comment> \<open>\<open>const sentences = text.split(/[.!?]+/).length\<close>\<close>
  "readabilitySentences text = length (split sentencePattern text)"

definition readabilityCharacters :: "jsstring \<Rightarrow> nat" where
  \<comment> \<open>\<open>const characters = text.replace(/\s+/g, '').length\<close>\<close>
  "readabilityCharacters text = length (replace_g wsPattern [] None text)"

definition calculateReadability :: "jsstring \<Rightarrow> real" where
  "calculateReadability text =
     (let words = readabilityWords text;
          sentences = readabilitySentences text;
          characters = readabilityCharacters text
      in if sentences = 0 \<or> words = 0 then 0
         else
           let avgWordsPerSentence = real words / real sentences;
               avgCharsPerWord = real characters / real words;
               readabilityScore = 100 - (avgWordsPerSentence * 1.8) - (avgCharsPerWord * 8)
           in max 0 (min 100 readabilityScore))"

record keywordResult =
  kw_score :: real
  kw_keywords :: "jsstring list"

definition keywordTokens :: "jsstring \<Rightarrow> jsstring list" where
  \<comment> \<open>\<open>text.toLowerCase().match(/\b[a-z]{3,}\b/g) || []\<close>\<close>
  "keywordTokens text =
     (case match_g keywordPattern (toLowerCase text) of None \<Rightarrow> [] | Some ws \<Rightarrow> ws)"

definition countWord :: "jsobject \<Rightarrow> jsstring \<Rightarrow> jsobject" where
  \<comment> \<open>\<open>keywordCounts[word] = (keywordCounts[word] || 0) + 1\<close>\<close>
  "countWord obj word = setProp obj word (plusOne (orZero (getProp obj word)))"

definition keywordCounts :: "jsstring list \<Rightarrow> jsobject" where
  \<comment> \<open>the object after \<open>words.forEach\<close>\<close>
  "keywordCounts words = foldl countWord [] words"

definition byCount :: "jsstring \<times> jsval \<Rightarrow> jsstring \<times> jsval \<Rightarrow> int option" where
  \<comment> \<open>\<open>(a, b) => b[1] - a[1]\<close>\<close>
  "byCount a b = minus_js (snd b) (snd a)"

definition analyzeKeywords :: "jsstring \<Rightarrow> keywordResult" where
  "analyzeKeywords text =
     (let words = keywordTokens text;
          totalWords = length words
      in if totalWords = 0 then \<lparr> kw_score = 0, kw_keywords = [] \<rparr>
         else
           let counts = keywordCounts words;
               sortedKeywords = map fst (take 5 (sort_js byCount counts));
               uniqueWordRatio = real (length (map fst counts)) / real totalWords;
               keywordScore = min 100 (uniqueWordRatio * 150)
           in \<lparr> kw_score = keywordScore, kw_keywords = sortedKeywords \<rparr>)"

record headingResult =
  h_score :: real
  hasH1 :: bool
  hasSubheadings :: bool

definition analyzeHeadings :: "jsstring \<Rightarrow> headingResult" where
  "analyzeHeadings text =
     (let hasH1 = test h1Pattern text;
          subheadingsMatch = match_g subheadingPattern text;
          hasSubheadings =
            (case subheadingsMatch of None \<Rightarrow> False | Some ms \<Rightarrow> 0 < length ms);
          score = 0;
          score = (if hasH1 then score + 50 else score);
          score = (if hasSubheadings then score + 50 else score)
      in \<lparr> h_score = score, hasH1 = hasH1, hasSubheadings = hasSubheadings \<rparr>)"

definition calculateWordCount :: "jsstring \<Rightarrow> nat" where
  \<comment> \<open>\<open>filter(Boolean)\<close> keeps the strings that are not empty\<close>
  "calculateWordCount text =
     length (filter (\<lambda>w. w \<noteq> []) (split wsPattern (trim text)))"

record suggestions =
  s_readability :: "jsstring list"
  s_keywords :: "jsstring list"
  s_structure :: "jsstring list"
  s_general :: "jsstring list"

definition getSEOSuggestions :: "jsstring \<Rightarrow> suggestions" where
  \<open>getSEOSuggestions text =
     (let wordCount = calculateWordCount text;
          readabilityScore = calculateReadability text;
          keywords = kw_keywords (analyzeKeywords text);
          headings = analyzeHeadings text;
          sg = \<lparr> s_readability = [], s_keywords = [], s_structure = [], s_general = [] \<rparr>;
          sg = (if readabilityScore < 50
                then sg\<lparr> s_readability := s_readability sg
                       @ [js ''Use shorter sentences to improve readability.'',
                          js ''Break up long paragraphs into smaller ones.''] \<rparr>
                else sg);
          sg = (if includes_js text (js ''very'') \<or> includes_js text (js ''really'')
                then sg\<lparr> s_readability := s_readability sg
                       @ [js ''Replace generic intensifiers like "very" and "really" with more specific words.''] \<rparr>
                else sg);
          sg = (if length keywords < 3
                then sg\<lparr> s_keywords := s_keywords sg
                       @ [js ''Include more relevant keywords throughout your content.''] \<rparr>
                else sg\<lparr> s_keywords := s_keywords sg
                       @ [js ''Consider focusing on these keywords: ''
                          @ join (js '', '') (take 3 keywords) @ js ''.''] \<rparr>);
          sg = (if \<not> hasH1 headings
                then sg\<lparr> s_structure := s_structure sg
                       @ [js ''Add a clear H1 title to your content.''] \<rparr>
                else sg);
          sg = (if \<not> hasSubheadings headings
                then sg\<lparr> s_structure := s_structure sg
                       @ [js ''Add subheadings (H2, H3) to break up your content and improve structure.''] \<rparr>
                else sg);
          sg = (if wordCount < 300
                then sg\<lparr> s_general := s_general sg
                       @ [js ''Consider adding more content. Articles with 1000+ words tend to perform better in search results.''] \<rparr>
                else sg);
          sg = sg\<lparr> s_general := s_general sg
                 @ [js ''Include external links to authoritative sources to improve credibility.''] \<rparr>;
          sg = sg\<lparr> s_general := s_general sg
                 @ [js ''Add internal links to other relevant content on your site.''] \<rparr>
      in sg)\<close>

subsection \<open>The suggestions for given analysis results\<close>

text \<open>
  \<open>pushSuggestions\<close> is the body of \<open>getSEOSuggestions\<close> after its four analysis calls,
  with their results as arguments: \<open>getSEOSuggestions\<close> is \<open>pushSuggestions\<close> at the results
  of \<open>calculateWordCount\<close>, \<open>calculateReadability\<close>, \<open>analyzeKeywords\<close> and
  \<open>analyzeHeadings\<close>. A property of \<open>pushSuggestions\<close> for every score and every keyword
  list holds whatever the engine's double arithmetic and sort make of them.
\<close>

definition pushSuggestions ::
  "jsstring \<Rightarrow> nat \<Rightarrow> real \<Rightarrow> jsstring list \<Rightarrow> bool \<Rightarrow> bool \<Rightarrow> suggestions" where
  \<open>pushSuggestions text wordCount readabilityScore keywords hasH1' hasSubheadings' =
     (let sg = \<lparr> s_readability = [], s_keywords = [], s_structure = [], s_general = [] \<rparr>;
          sg = (if readabilityScore < 50
                then sg\<lparr> s_readability := s_readability sg
                       @ [js ''Use shorter sentences to improve readability.'',
                          js ''Break up long paragraphs into smaller ones.''] \<rparr>
                else sg);
          sg = (if includes_js text (js ''very'') \<or> includes_js text (js ''really'')
                then sg\<lparr> s_readability := s_readability sg
                       @ [js ''Replace generic intensifiers like "very" and "really" with more specific words.''] \<rparr>
                else sg);
          sg = (if length keywords < 3
                then sg\<lparr> s_keywords := s_keywords sg
                       @ [js ''Include more relevant keywords throughout your content.''] \<rparr>
                else sg\<lparr> s_keywords := s_keywords sg
                       @ [js ''Consider focusing on these keywords: ''
                          @ join (js '', '') (take 3 keywords) @ js ''.''] \<rparr>);
          sg = (if \<not> hasH1'
                then sg\<lparr> s_structure := s_structure sg
                       @ [js ''Add a clear H1 title to your content.''] \<rparr>
                else sg);
          sg = (if \<not> hasSubheadings'
                then sg\<lparr> s_structure := s_structure sg
                       @ [js ''Add subheadings (H2, H3) to break up your content and improve structure.''] \<rparr>
                else sg);
          sg = (if wordCount < 300
                then sg\<lparr> s_general := s_general sg
                       @ [js ''Consider adding more content. Articles with 1000+ words tend to perform better in search results.''] \<rparr>
                else sg);
          sg = sg\<lparr> s_general := s_general sg
                 @ [js ''Include external links to authoritative sources to improve credibility.''] \<rparr>;
          sg = sg\<lparr> s_general := s_general sg
                 @ [js ''Add internal links to other relevant content on your site.''] \<rparr>
      in sg)\<close>

subsection \<open>The page: \<open>handleAnalyze\<close>\<close>




subsection \<open>The operations that can fail\<close>







subsection \<open>The rule table of the specification\<close>

text \<open>
  The specification gives the suggestions as a table: one row per suggestion, with its
  condition and its category. \<open>ruleTable\<close> is that table in the specification's words:
  "contains as a substring" is \<open>containsText\<close>, "top 3 joined by \<open>', '\<close>" is written out, and
  the texts the specification abridges or only names are the fields of \<open>ruleTexts\<close>;
  \<open>codeTexts\<close> are the texts of the source.
\<close>

definition containsText :: "jsstring \<Rightarrow> jsstring \<Rightarrow> bool" where
  "containsText s t = (\<exists>before after. s = before @ t @ after)"

record ruleTexts =
  t_intensifier :: jsstring
  t_moreKeywords :: jsstring
  t_addH1 :: jsstring
  t_addSubheadings :: jsstring
  t_moreContent :: jsstring
  t_externalLinks :: jsstring
  t_internalLinks :: jsstring

definition ruleTable ::
  "ruleTexts \<Rightarrow> jsstring \<Rightarrow> nat \<Rightarrow> real \<Rightarrow> jsstring list \<Rightarrow> bool \<Rightarrow> bool \<Rightarrow> suggestions" where
  "ruleTable texts text wordCount score keywords hasTopLevel hasSub =
     \<lparr> s_readability =
         (if score < 50
          then [js ''Use shorter sentences to improve readability.'',
                js ''Break up long paragraphs into smaller ones.'']
          else [])
         @ (if containsText text (js ''very'') \<or> containsText text (js ''really'')
            then [t_intensifier texts] else []),
       s_keywords =
         (case keywords of
            k1 # k2 # k3 # rest \<Rightarrow>
              [js ''Consider focusing on these keywords: '' @ k1 @ js '', '' @ k2 @ js '', '' @ k3
               @ js ''.'']
          | _ \<Rightarrow> [t_moreKeywords texts]),
       s_structure =
         (if hasTopLevel then [] else [t_addH1 texts])
         @ (if hasSub then [] else [t_addSubheadings texts]),
       s_general =
         (if wordCount < 300 then [t_moreContent texts] else [])
         @ [t_externalLinks texts, t_internalLinks texts] \<rparr>"

definition codeTexts :: ruleTexts where
  \<open>codeTexts =
     \<lparr> t_intensifier =
         js ''Replace generic intensifiers like "very" and "really" with more specific words.'',
       t_moreKeywords = js ''Include more relevant keywords throughout your content.'',
       t_addH1 = js ''Add a clear H1 title to your content.'',
       t_addSubheadings =
         js ''Add subheadings (H2, H3) to break up your content and improve structure.'',
       t_moreContent =
         js ''Consider adding more content. Articles with 1000+ words tend to perform better in search results.'',
       t_externalLinks =
         js ''Include external links to authoritative sources to improve credibility.'',
       t_internalLinks = js ''Add internal links to other relevant content on your site.'' \<rparr>\<close>

subsection \<open>Degenerate texts\<close>



subsection \<open>Notions used in the proofs\<close>

text \<open>
  \<open>counted obj f\<close>: the object holds exactly the keys with a count, each with its count
  as a number. \<open>countOf\<close> and \<open>isNum\<close> read an entry of \<open>Object.entries\<close>.
\<close>

definition counted :: "jsobject \<Rightarrow> (jsstring \<Rightarrow> nat) \<Rightarrow> bool" where
  "counted obj f = (\<forall>k. map_of obj k = (if f k = 0 then None else Some (Num (f k))))"

definition countOf :: "jsstring \<times> jsval \<Rightarrow> nat" where
  "countOf e = (case snd e of Num n \<Rightarrow> n | Fun f \<Rightarrow> 0 | FunText f k \<Rightarrow> 0)"

definition isNum :: "jsstring \<times> jsval \<Rightarrow> bool" where
  "isNum e = (case snd e of Num n \<Rightarrow> True | Fun f \<Rightarrow> False | FunText f k \<Rightarrow> False)"

section \<open>Properties\<close>

subsection \<open>Facts about the matcher and \<open>split\<close>\<close>

lemma greedy_fail:
  "length (takeWhile p s) < n \<Longrightarrow> greedy p n (m, prev, s) = []"
  by (induction p n "(m, prev, s)" arbitrary: m prev s rule: greedy.induct) auto

lemma greedy_first:
  "n \<le> length (takeWhile p s) \<Longrightarrow>
   \<exists>prev' more. greedy p n (m, prev, s) = (rev (takeWhile p s) @ m, prev', dropWhile p s) # more"
proof (induction p n "(m, prev, s)" arbitrary: m prev s rule: greedy.induct)
  case (1 p n m prev)
  then show ?case by simp
next
  case (2 p n m prev c cs)
  show ?case
  proof (cases "p c")
    case True
    with 2 show ?thesis by fastforce
  next
    case False
    with 2 show ?thesis by simp
  qed
qed

lemma matchAt_plus_miss:
  "\<not> p c \<Longrightarrow> matchAt (Rep (Suc n) p) prev (c # cs) = None"
  by (simp add: matchAt_def)

lemma matchAt_plus_empty: "matchAt (Rep (Suc n) p) prev [] = None"
  by (simp add: matchAt_def)

lemma matchAt_plus_hit:
  "p c \<Longrightarrow> \<exists>prev'. matchAt (Rep (Suc 0) p) prev (c # cs) =
      Some (takeWhile p (c # cs), prev', dropWhile p (c # cs))"
proof -
  assume pc: "p c"
  then have "Suc 0 \<le> length (takeWhile p (c # cs))" by simp
  from greedy_first[OF this, of "[]" prev] obtain prev' more where
    "greedy p (Suc 0) ([], prev, c # cs) = (rev (takeWhile p (c # cs)) @ [], prev', dropWhile p (c # cs)) # more"
    by blast
  then show ?thesis by (simp add: matchAt_def)
qed

lemma split_loop_nonempty: "split_loop r acc prev s \<noteq> []"
  by (induction r acc prev s rule: split_loop.induct) (auto split: option.splits)

lemma split_loop_no_separator:
  "\<forall>c \<in> set s. \<not> p c \<Longrightarrow> split_loop (Rep (Suc n) p) acc prev s = [rev acc @ s]"
  by (induction s arbitrary: acc prev) (auto simp: matchAt_plus_miss)

lemma split_no_separator:
  "\<forall>c \<in> set s. \<not> p c \<Longrightarrow> split (Rep (Suc n) p) s = [s]"
  by (simp add: split_def split_loop_no_separator matchAt_plus_empty)

lemma split_plus_nonempty: "split (Rep (Suc n) p) s \<noteq> []"
  by (simp add: split_def split_loop_nonempty matchAt_plus_empty)

subsection \<open>The counts of \<open>calculateReadability\<close>\<close>

lemma trim_blank:
  assumes "\<forall>c \<in> set s. isWhiteSpace c"
  shows "trim s = []"
proof -
  from assms have d: "dropWhile isWhiteSpace s = []" by (simp add: dropWhile_eq_Nil_conv)
  show ?thesis unfolding trim_def d by simp
qed

lemma search_plus_nil: "search (Rep (Suc n) p) prev [] = None"
  by (simp add: matchAt_plus_empty)

lemma replace_g_nil: "replace_g (Rep (Suc n) p) rep prev [] = []"
  by (simp add: replace_g.simps matchAt_plus_empty)

lemma replace_g_blank:
  assumes "\<forall>c \<in> set s. p c"
  shows "replace_g (Rep (Suc 0) p) [] prev s = []"
proof (cases s)
  case Nil
  then show ?thesis using replace_g_nil[of 0 p "[]" prev] by simp
next
  case (Cons c cs)
  with assms have pc: "p c" by simp
  from assms have tw: "takeWhile p (c # cs) = c # cs" "dropWhile p (c # cs) = []"
    using Cons by auto
  from matchAt_plus_hit[of p c prev cs] pc tw obtain prev' where
    m: "matchAt (Rep (Suc 0) p) prev (c # cs) = Some (c # cs, prev', [])" by auto
  have "replace_g (Rep (Suc 0) p) [] prev (c # cs) = replace_g (Rep (Suc 0) p) [] prev' []"
    by (subst replace_g.simps) (simp add: m)
  also have "\<dots> = []" using replace_g_nil[of 0 p "[]" prev'] by simp
  finally show ?thesis using Cons by simp
qed

lemma whitespace_not_sentence_end: "isWhiteSpace c \<Longrightarrow> \<not> isSentenceEnd c"
  by (auto simp: isWhiteSpace_def isSentenceEnd_def)

lemma readabilityWords_pos: "1 \<le> readabilityWords text"
  using split_plus_nonempty[of 0 isWhiteSpace "trim text"]
  by (cases "split wsPattern (trim text)") (simp_all add: readabilityWords_def wsPattern_def)

lemma readabilitySentences_pos: "1 \<le> readabilitySentences text"
  using split_plus_nonempty[of 0 isSentenceEnd "text"]
  by (cases "split sentencePattern text") (simp_all add: readabilitySentences_def sentencePattern_def)

lemma readabilitySentences_no_end:
  "\<forall>c \<in> set text. \<not> isSentenceEnd c \<Longrightarrow> readabilitySentences text = 1"
  by (simp add: readabilitySentences_def sentencePattern_def split_no_separator)

lemma readabilityWords_blank:
  "\<forall>c \<in> set text. isWhiteSpace c \<Longrightarrow> readabilityWords text = 1"
  by (simp add: readabilityWords_def trim_blank wsPattern_def split_def matchAt_plus_empty)

lemma readabilityCharacters_blank:
  "\<forall>c \<in> set text. isWhiteSpace c \<Longrightarrow> readabilityCharacters text = 0"
  by (simp add: readabilityCharacters_def wsPattern_def replace_g_blank)

lemma calculateReadability_formula:
  "calculateReadability text =
     max 0 (min 100 (100 - real (readabilityWords text) / real (readabilitySentences text) * 1.8
                     - real (readabilityCharacters text) / real (readabilityWords text) * 8))"
  using readabilityWords_pos[of "text"] readabilitySentences_pos[of "text"]
  by (simp add: calculateReadability_def Let_def)

lemma calculateReadability_blank:
  assumes "\<forall>c \<in> set text. isWhiteSpace c"
  shows "calculateReadability text = 98.2"
proof -
  from assms have "\<forall>c \<in> set text. \<not> isSentenceEnd c"
    by (simp add: whitespace_not_sentence_end)
  then have "readabilitySentences text = 1" by (rule readabilitySentences_no_end)
  then show ?thesis
    by (simp add: calculateReadability_formula readabilityWords_blank[OF assms]
        readabilityCharacters_blank[OF assms])
qed

subsection \<open>The words of a trimmed text\<close>

lemma last_dropWhile_keep:
  "dropWhile p xs \<noteq> [] \<Longrightarrow> last (dropWhile p xs) = last xs"
  by (induction xs) (auto split: if_splits)

lemma trim_ends:
  assumes "trim s \<noteq> []"
  shows "\<not> isWhiteSpace (hd (trim s)) \<and> \<not> isWhiteSpace (last (trim s))"
proof -
  define t where "t = dropWhile isWhiteSpace s"
  define u where "u = dropWhile isWhiteSpace (rev t)"
  have tr: "trim s = rev u" by (simp add: trim_def t_def u_def)
  with assms have u: "u \<noteq> []" by simp
  then have rt: "rev t \<noteq> []" by (auto simp: u_def)
  then have t: "t \<noteq> []" by simp
  have "\<not> isWhiteSpace (hd u)" using u unfolding u_def by (rule hd_dropWhile)
  then have l: "\<not> isWhiteSpace (last (rev u))" using u by (simp add: last_rev)
  have "last u = last (rev t)" using u unfolding u_def by (rule last_dropWhile_keep)
  then have "hd (rev u) = hd t" using u t by (simp add: hd_rev last_rev)
  moreover have "\<not> isWhiteSpace (hd t)" using t unfolding t_def by (rule hd_dropWhile)
  ultimately show ?thesis using l tr by simp
qed

lemma split_loop_pieces:
  "(acc \<noteq> [] \<or> (s \<noteq> [] \<and> \<not> p (hd s))) \<Longrightarrow> (s = [] \<or> \<not> p (last s)) \<Longrightarrow>
   [] \<notin> set (split_loop (Rep (Suc 0) p) acc prev s)"
proof (induction "Rep (Suc 0) p" acc prev s rule: split_loop.induct)
  case (1 acc prev)
  then show ?case by simp
next
  case (2 acc prev c cs)
  show ?case
  proof (cases "p c")
    case False
    then have m: "matchAt (Rep (Suc 0) p) prev (c # cs) = None" by (rule matchAt_plus_miss)
    have "[] \<notin> set (split_loop (Rep (Suc 0) p) (c # acc) (Some c) cs)"
      using "2.hyps"(1)[OF m] "2.prems" by (auto split: if_splits)
    then show ?thesis by (simp add: m)
  next
    case True
    with "2.prems" have acc: "acc \<noteq> []" by simp
    from matchAt_plus_hit[of p c prev cs] True obtain prev' where
      m: "matchAt (Rep (Suc 0) p) prev (c # cs) =
            Some (takeWhile p (c # cs), prev', dropWhile p (c # cs))" by blast
    from "2.prems" have nl: "\<not> p (last (c # cs))" by simp
    have "last (c # cs) \<in> set (c # cs)" by (rule last_in_set) simp
    with nl have d: "dropWhile p (c # cs) \<noteq> []" by (auto simp: dropWhile_eq_Nil_conv simp del: last.simps)
    then have h: "\<not> p (hd (dropWhile p (c # cs)))" by (rule hd_dropWhile)
    have l: "\<not> p (last (dropWhile p (c # cs)))"
      using last_dropWhile_keep[OF d] nl by simp
    have "[] \<notin> set (split_loop (Rep (Suc 0) p) [] prev' (dropWhile p (c # cs)))"
      using "2.hyps"(3)[OF m refl refl] acc d h l by simp
    then show ?thesis using acc True by (simp add: m)
  qed
qed

lemma split_trimmed_pieces:
  assumes "trim s \<noteq> []"
  shows "[] \<notin> set (split wsPattern (trim s))"
  using assms trim_ends[OF assms]
  by (simp add: split_def wsPattern_def split_loop_pieces)

lemma calculateWordCount_eq:
  "calculateWordCount text = (if trim text = [] then 0 else readabilityWords text)"
proof (cases "trim text = []")
  case True
  then show ?thesis
    by (simp add: calculateWordCount_def split_def wsPattern_def matchAt_plus_empty)
next
  case False
  from split_trimmed_pieces[OF False]
  have "filter (\<lambda>w. w \<noteq> []) (split wsPattern (trim text)) = split wsPattern (trim text)"
    by (simp add: filter_id_conv) metis
  with False show ?thesis by (simp add: calculateWordCount_def readabilityWords_def)
qed

subsection \<open>The keys of the counter object\<close>

lemma setProp_keys:
  "map fst (setProp obj k v) = (if k \<in> set (map fst obj) then map fst obj else map fst obj @ [k])"
  by (induction obj) (auto simp: image_iff, force+)

lemma countWord_keys:
  "map fst (countWord obj w) = (if w \<in> set (map fst obj) then map fst obj else map fst obj @ [w])"
  by (simp add: countWord_def setProp_keys)

lemma foldl_countWord_keys:
  "distinct (map fst obj) \<Longrightarrow>
   distinct (map fst (foldl countWord obj ws)) \<and>
   set (map fst (foldl countWord obj ws)) = set (map fst obj) \<union> set ws"
proof (induction ws arbitrary: obj)
  case Nil
  then show ?case by simp
next
  case (Cons w ws)
  have d: "distinct (map fst (countWord obj w))"
    using Cons.prems by (simp add: countWord_keys)
  have s: "set (map fst (countWord obj w)) = insert w (set (map fst obj))"
    by (auto simp: countWord_keys)
  from Cons.IH[OF d] s show ?case by auto
qed

lemma keywordCounts_length: "length (keywordCounts ws) = card (set ws)"
proof -
  have "distinct (map fst (keywordCounts ws)) \<and> set (map fst (keywordCounts ws)) = set ws"
    using foldl_countWord_keys[of "[]" ws] by (simp add: keywordCounts_def)
  then have "card (set ws) = length (map fst (keywordCounts ws))"
    using distinct_card by metis
  then show ?thesis by simp
qed

lemma insertSorted_length: "length (insertSorted cmp x ys) = Suc (length ys)"
  by (induction ys) auto

lemma insertSorted_set: "set (insertSorted cmp x ys) = insert x (set ys)"
  by (induction ys) auto

lemma sort_js_length: "length (sort_js cmp xs) = length xs"
  by (induction xs) (auto simp: sort_js_def insertSorted_length)

lemma sort_js_set: "set (sort_js cmp xs) = set xs"
  by (induction xs) (auto simp: sort_js_def insertSorted_set)

lemma analyzeKeywords_score:
  "keywordTokens text \<noteq> [] \<Longrightarrow>
   kw_score (analyzeKeywords text) =
     min 100 (real (card (set (keywordTokens text))) / real (length (keywordTokens text)) * 150)"
  by (simp add: analyzeKeywords_def Let_def keywordCounts_length)

lemma analyzeKeywords_no_tokens:
  "keywordTokens text = [] \<Longrightarrow> analyzeKeywords text = \<lparr> kw_score = 0, kw_keywords = [] \<rparr>"
  by (simp add: analyzeKeywords_def Let_def)

lemma analyzeKeywords_length: "length (kw_keywords (analyzeKeywords text)) \<le> 5"
  by (simp add: analyzeKeywords_def Let_def)

lemma analyzeKeywords_subset:
  "set (kw_keywords (analyzeKeywords text)) \<subseteq> set (keywordTokens text)"
proof (cases "keywordTokens text = []")
  case True
  then show ?thesis by (simp add: analyzeKeywords_no_tokens)
next
  case False
  have "set (map fst (keywordCounts (keywordTokens text))) = set (keywordTokens text)"
    using foldl_countWord_keys[of "[]" "keywordTokens text"] by (simp add: keywordCounts_def)
  moreover have "set (take 5 (sort_js byCount (keywordCounts (keywordTokens text))))
      \<subseteq> set (keywordCounts (keywordTokens text))"
    using set_take_subset[of 5 "sort_js byCount (keywordCounts (keywordTokens text))"]
    by (simp add: sort_js_set)
  ultimately show ?thesis using False
    by (auto simp: analyzeKeywords_def Let_def)
qed

subsection \<open>The tokens of \<open>analyzeKeywords\<close>\<close>

lemma greedy_matched:
  "(m', p', rest) \<in> set (greedy p n (m, prev, s)) \<Longrightarrow>
   \<exists>x. m' = x @ m \<and> (\<forall>c \<in> set x. p c) \<and> n \<le> length x"
proof (induction p n "(m, prev, s)" arbitrary: m prev s rule: greedy.induct)
  case (1 p n m prev)
  then show ?case by (auto split: if_splits)
next
  case (2 p n m prev c cs)
  from "2.prems" consider
    (more) "p c" "(m', p', rest) \<in> set (greedy p (n - 1) (c # m, Some c, cs))"
    | (stop) "n = 0" "m' = m"
    by (auto split: if_splits)
  then show ?case
  proof cases
    case more
    from "2.hyps"[OF more] obtain x where
      x: "m' = x @ c # m" "\<forall>c \<in> set x. p c" "n - 1 \<le> length x" by blast
    then have "m' = (x @ [c]) @ m \<and> (\<forall>d \<in> set (x @ [c]). p d) \<and> n \<le> length (x @ [c])"
      using more(1) by auto
    then show ?thesis by blast
  next
    case stop
    then show ?thesis by simp
  qed
qed

lemma rmatch_keywordPattern:
  assumes "(m', p', rest) \<in> set (rmatch keywordPattern ([], prev, s))"
  shows "(\<forall>c \<in> set m'. isLowerAZ c) \<and> 3 \<le> length m'"
proof -
  from assms obtain st where
    st: "st \<in> set (greedy isLowerAZ 3 ([], prev, s))" and
    m: "(m', p', rest) \<in> set (rmatch (Seq WordB Eps) st)"
    by (auto simp: keywordPattern_def seqs_def split: if_splits)
  obtain m1 p1 s1 where st_eq: "st = (m1, p1, s1)" by (cases st)
  from m st_eq have "m' = m1" by (auto split: if_splits)
  moreover from greedy_matched[of m1 p1 s1 isLowerAZ 3 "[]" prev s] st st_eq
  have "(\<forall>c \<in> set m1. isLowerAZ c) \<and> 3 \<le> length m1" by auto
  ultimately show ?thesis by simp
qed

lemma matchAt_keywordPattern:
  "matchAt keywordPattern prev s = Some (m, p', rest) \<Longrightarrow>
   (\<forall>c \<in> set m. isLowerAZ c) \<and> 3 \<le> length m"
  using rmatch_keywordPattern[of "rev m" p' rest prev s]
  by (auto simp: matchAt_def split: list.splits)

lemma search_keywordPattern:
  "search keywordPattern prev s = Some (sk, m, p', rest) \<Longrightarrow>
   (\<forall>c \<in> set m. isLowerAZ c) \<and> 3 \<le> length m"
  by (induction keywordPattern prev s arbitrary: sk rule: search.induct)
     (auto split: option.splits dest: matchAt_keywordPattern)

lemma matches_keywordPattern:
  "w \<in> set (matches keywordPattern prev s) \<Longrightarrow> (\<forall>c \<in> set w. isLowerAZ c) \<and> 3 \<le> length w"
proof (induction keywordPattern prev s rule: matches.induct)
  case (1 prev s)
  show ?case
  proof (cases "search keywordPattern prev s")
    case None
    with "1.prems" show ?thesis by (simp add: matches.simps)
  next
    case (Some z)
    obtain sk m prev' rest where z: "z = (sk, m, prev', rest)" by (cases z)
    from search_keywordPattern Some z
    have q: "(\<forall>c \<in> set m. isLowerAZ c) \<and> 3 \<le> length m" by blast
    then have ne: "m \<noteq> []" by auto
    from "1.prems" Some z ne have "w = m \<or> w \<in> set (matches keywordPattern prev' rest)"
      by (subst (asm) matches.simps) auto
    then show ?thesis
    proof
      assume "w = m"
      with q show ?thesis by simp
    next
      assume "w \<in> set (matches keywordPattern prev' rest)"
      with "1.hyps"(2) Some z ne show ?thesis by simp
    qed
  qed
qed

lemma keywordTokens_shape:
  "w \<in> set (keywordTokens text) \<Longrightarrow> (\<forall>c \<in> set w. isLowerAZ c) \<and> 3 \<le> length w"
  using matches_keywordPattern[of w None "toLowerCase text"]
  by (auto simp: keywordTokens_def match_g_def split: list.splits option.splits)

subsection \<open>The order of the keywords\<close>

lemma objectPrototype_lower:
  assumes "\<forall>c \<in> set w. isLowerAZ c" and "w \<noteq> js ''constructor''"
  shows "objectPrototype w = None"
proof -
  have "\<not> (\<forall>c \<in> set k. isLowerAZ c)"
    if "k \<in> set [js ''hasOwnProperty'', js ''isPrototypeOf'',
                js ''propertyIsEnumerable'', js ''toLocaleString'', js ''toString'',
                js ''valueOf'', js ''__defineGetter__'', js ''__defineSetter__'',
                js ''__lookupGetter__'', js ''__lookupSetter__'']" for k
    using that by (auto simp: js_def isLowerAZ_def)
  with assms show ?thesis by (auto simp: objectPrototype_def)
qed

lemma map_of_setProp: "map_of (setProp obj k v) = (map_of obj)(k \<mapsto> v)"
  by (induction obj) (auto simp: fun_eq_iff)

lemma counted_countWord:
  assumes "counted obj f" and "objectPrototype w = None"
  shows "counted (countWord obj w) (f(w := Suc (f w)))"
  using assms
  by (auto simp: counted_def countWord_def map_of_setProp getProp_def orZero_def plusOne_def
      truthy_def)

lemma counted_foldl:
  "counted obj f \<Longrightarrow> \<forall>w \<in> set ws. objectPrototype w = None \<Longrightarrow>
   counted (foldl countWord obj ws) (\<lambda>k. f k + count_list ws k)"
proof (induction ws arbitrary: obj f)
  case Nil
  then show ?case by simp
next
  case (Cons w ws)
  from Cons.prems have "counted (countWord obj w) (f(w := Suc (f w)))"
    by (simp add: counted_countWord)
  from Cons.IH[OF this] Cons.prems(2)
  have "counted (foldl countWord (countWord obj w) ws)
          (\<lambda>k. (f(w := Suc (f w))) k + count_list ws k)" by simp
  moreover have "(\<lambda>k. (f(w := Suc (f w))) k + count_list ws k) = (\<lambda>k. f k + count_list (w # ws) k)"
    by (auto simp: fun_eq_iff)
  ultimately show ?case by simp
qed

lemma keywordCounts_values:
  assumes "\<forall>w \<in> set ws. objectPrototype w = None" and "(k, v) \<in> set (keywordCounts ws)"
  shows "v = Num (count_list ws k)"
proof -
  have "counted [] (\<lambda>k. 0)" by (simp add: counted_def)
  from counted_foldl[OF this assms(1)]
  have c: "counted (keywordCounts ws) (count_list ws)" by (simp add: keywordCounts_def)
  have "distinct (map fst (keywordCounts ws))"
    using foldl_countWord_keys[of "[]" ws] by (simp add: keywordCounts_def)
  with assms(2) have "map_of (keywordCounts ws) k = Some v" by simp
  with c show ?thesis by (auto simp: counted_def split: if_splits)
qed

lemma sortCompare_byCount:
  "isNum a \<Longrightarrow> isNum b \<Longrightarrow> sortCompare byCount a b = int (countOf b) - int (countOf a)"
  by (auto simp: sortCompare_def byCount_def minus_js_def toNumber_def countOf_def isNum_def
      split: jsval.splits)

lemma insertSorted_sorted:
  assumes "isNum x" "\<forall>y \<in> set ys. isNum y"
    "sorted_wrt (\<lambda>a b. countOf b \<le> countOf a) ys"
  shows "sorted_wrt (\<lambda>a b. countOf b \<le> countOf a) (insertSorted byCount x ys)"
  using assms
proof (induction ys)
  case Nil
  then show ?case by simp
next
  case (Cons y ys)
  show ?case
  proof (cases "0 < sortCompare byCount x y")
    case True
    with Cons.prems have lt: "countOf x < countOf y" by (simp add: sortCompare_byCount)
    have "sorted_wrt (\<lambda>a b. countOf b \<le> countOf a) (insertSorted byCount x ys)"
      using Cons by simp
    moreover have "\<forall>z \<in> set (insertSorted byCount x ys). countOf z \<le> countOf y"
      using Cons.prems lt by (auto simp: insertSorted_set)
    ultimately show ?thesis using True by simp
  next
    case False
    with Cons.prems have le: "countOf y \<le> countOf x" by (simp add: sortCompare_byCount)
    then have "\<forall>z \<in> set (y # ys). countOf z \<le> countOf x"
      using Cons.prems(3) by auto
    then show ?thesis using False Cons.prems(3) by simp
  qed
qed

lemma sort_js_sorted:
  "\<forall>y \<in> set xs. isNum y \<Longrightarrow> sorted_wrt (\<lambda>a b. countOf b \<le> countOf a) (sort_js byCount xs)"
proof (induction xs)
  case Nil
  then show ?case by (simp add: sort_js_def)
next
  case (Cons x xs)
  then have "sorted_wrt (\<lambda>a b. countOf b \<le> countOf a) (sort_js byCount xs)" by simp
  moreover have "\<forall>y \<in> set (sort_js byCount xs). isNum y"
    using Cons.prems by (simp add: sort_js_set)
  ultimately have "sorted_wrt (\<lambda>a b. countOf b \<le> countOf a)
      (insertSorted byCount x (sort_js byCount xs))"
    using Cons.prems by (simp add: insertSorted_sorted)
  then show ?case by (simp add: sort_js_def)
qed

lemma sorted_wrt_take: "sorted_wrt R xs \<Longrightarrow> sorted_wrt R (take n xs)"
  by (induction xs arbitrary: n) (auto simp: take_Cons' dest: in_set_takeD)

lemma analyzeKeywords_sorted:
  assumes "js ''constructor'' \<notin> set (keywordTokens text)"
  shows "sorted_wrt (\<lambda>a b. count_list (keywordTokens text) b \<le> count_list (keywordTokens text) a)
           (kw_keywords (analyzeKeywords text))"
proof (cases "keywordTokens text = []")
  case True
  then show ?thesis by (simp add: analyzeKeywords_no_tokens)
next
  case False
  define ws where "ws = keywordTokens text"
  have np: "\<forall>w \<in> set ws. objectPrototype w = None"
    using assms keywordTokens_shape objectPrototype_lower unfolding ws_def by metis
  have val: "\<And>k v. (k, v) \<in> set (keywordCounts ws) \<Longrightarrow> v = Num (count_list ws k)"
    using keywordCounts_values[OF np] by blast
  have num: "\<forall>y \<in> set (keywordCounts ws). isNum y"
  proof
    fix y assume "y \<in> set (keywordCounts ws)"
    then have "snd y = Num (count_list ws (fst y))" using val[of "fst y" "snd y"] by simp
    then show "isNum y" by (simp add: isNum_def)
  qed
  have cnt: "\<forall>y \<in> set (keywordCounts ws). countOf y = count_list ws (fst y)"
  proof
    fix y assume "y \<in> set (keywordCounts ws)"
    then have "snd y = Num (count_list ws (fst y))" using val[of "fst y" "snd y"] by simp
    then show "countOf y = count_list ws (fst y)" by (simp add: countOf_def)
  qed
  let ?top = "take 5 (sort_js byCount (keywordCounts ws))"
  have st: "sorted_wrt (\<lambda>a b. countOf b \<le> countOf a) ?top"
    using sort_js_sorted[OF num] by (rule sorted_wrt_take)
  have sub: "set ?top \<subseteq> set (keywordCounts ws)"
    using set_take_subset[of 5 "sort_js byCount (keywordCounts ws)"] by (simp add: sort_js_set)
  have "sorted_wrt (\<lambda>a b. count_list ws (fst b) \<le> count_list ws (fst a)) ?top"
  proof (rule sorted_wrt_mono_rel[OF _ st])
    fix a b
    assume ab: "a \<in> set ?top" "b \<in> set ?top" "countOf b \<le> countOf a"
    with sub cnt have "countOf a = count_list ws (fst a)" "countOf b = count_list ws (fst b)"
      by auto
    with ab show "count_list ws (fst b) \<le> count_list ws (fst a)" by simp
  qed
  then have "sorted_wrt (\<lambda>a b. count_list ws b \<le> count_list ws a) (map fst ?top)"
    by (simp add: sorted_wrt_map)
  then show ?thesis using False by (simp add: analyzeKeywords_def Let_def ws_def)
qed

subsection \<open>Evaluation on concrete texts\<close>

text \<open>
  Concrete texts are evaluated by the simplifier with these unfolding rules.
\<close>

lemmas class_defs = js_def ch_def isLineTerminator_def isWhiteSpace_def isLowerAZ_def
  isWordChar_def isSentenceEnd_def dot_def lit_def liti_def canonicalize_def notGt_def
  digit2to6_def

lemmas engine_defs = wsPattern_def sentencePattern_def keywordPattern_def h1Pattern_def
  subheadingPattern_def seqs_def matchAt_def wordBefore_def wordAfter_def
  matches.simps replace_g.simps split_def test_def match_g_def

lemmas object_defs = objectPrototype_def getProp_def truthy_def orZero_def plusOne_def
  toNumber_def minus_js_def sortCompare_def sort_js_def countWord_def keywordCounts_def
  byCount_def

lemmas readability_defs = calculateReadability_def readabilityWords_def
  readabilitySentences_def readabilityCharacters_def trim_def Let_def

lemma tokens_cat: "keywordTokens (js ''cat cat cat dog dog bird'') =
    [js ''cat'', js ''cat'', js ''cat'', js ''dog'', js ''dog'', js ''bird'']"
  by (simp add: keywordTokens_def toLowerCase_def class_defs engine_defs)

lemma tokens_constructor: "keywordTokens (js ''constructor bbb bbb'') =
    [js ''constructor'', js ''bbb'', js ''bbb'']"
  by (simp add: keywordTokens_def toLowerCase_def class_defs engine_defs)

subsection \<open>Degenerate texts\<close>


lemma analyzeHeadings_none:
  "\<not> test h1Pattern text \<Longrightarrow> match_g subheadingPattern text = None \<Longrightarrow>
   analyzeHeadings text = \<lparr> h_score = 0, hasH1 = False, hasSubheadings = False \<rparr>"
  by (simp add: analyzeHeadings_def Let_def)

subsection \<open>The keyword list\<close>

text \<open>
  The keyword list has at most 5 entries, all of them lower-case alphabetic tokens of
  length 3 or more, for every text; it is in descending order of frequency for every
  text that does not have the token \<open>constructor\<close>.
\<close>

lemma analyzeKeywords_keywords:
  "length (kw_keywords (analyzeKeywords text)) \<le> 5 \<and>
   (\<forall>w \<in> set (kw_keywords (analyzeKeywords text)). (\<forall>c \<in> set w. isLowerAZ c) \<and> 3 \<le> length w) \<and>
   (js ''constructor'' \<notin> set (keywordTokens text) \<longrightarrow>
      sorted_wrt (\<lambda>a b. count_list (keywordTokens text) b \<le> count_list (keywordTokens text) a)
        (kw_keywords (analyzeKeywords text)))"
  using analyzeKeywords_length[of "text"] analyzeKeywords_subset[of "text"]
    keywordTokens_shape[of _ "text"] analyzeKeywords_sorted[of "text"]
  by blast

subsection \<open>The suggestions, category by category\<close>

lemma if_push_readability:
  "(if c then sg\<lparr> s_readability := v \<rparr> else sg) =
     sg\<lparr> s_readability := (if c then v else s_readability sg) \<rparr>"
  by simp

lemma if_push_keywords:
  "(if c then sg\<lparr> s_keywords := v \<rparr> else sg\<lparr> s_keywords := w \<rparr>) =
     sg\<lparr> s_keywords := (if c then v else w) \<rparr>"
  by simp

lemma if_push_structure:
  "(if c then sg\<lparr> s_structure := v \<rparr> else sg) =
     sg\<lparr> s_structure := (if c then v else s_structure sg) \<rparr>"
  by simp

lemma if_push_general:
  "(if c then sg\<lparr> s_general := v \<rparr> else sg) =
     sg\<lparr> s_general := (if c then v else s_general sg) \<rparr>"
  by simp

lemmas if_push = if_push_readability if_push_keywords if_push_structure if_push_general

lemma suggestions_readability_eq:
  \<open>s_readability (getSEOSuggestions text) =
     (if calculateReadability text < 50
      then [js ''Use shorter sentences to improve readability.'',
            js ''Break up long paragraphs into smaller ones.'']
      else [])
     @ (if includes_js text (js ''very'') \<or> includes_js text (js ''really'')
        then [js ''Replace generic intensifiers like "very" and "really" with more specific words.'']
        else [])\<close>
  by (simp add: getSEOSuggestions_def Let_def if_push cong: let_weak_cong)

lemma suggestions_keywords_eq:
  "s_keywords (getSEOSuggestions text) =
     [if length (kw_keywords (analyzeKeywords text)) < 3
      then js ''Include more relevant keywords throughout your content.''
      else js ''Consider focusing on these keywords: ''
           @ join (js '', '') (take 3 (kw_keywords (analyzeKeywords text))) @ js ''.'']"
  by (simp add: getSEOSuggestions_def Let_def if_push cong: let_weak_cong)

lemma suggestions_structure_eq:
  "s_structure (getSEOSuggestions text) =
     (if hasH1 (analyzeHeadings text) then []
      else [js ''Add a clear H1 title to your content.''])
     @ (if hasSubheadings (analyzeHeadings text) then []
        else [js ''Add subheadings (H2, H3) to break up your content and improve structure.''])"
  by (simp add: getSEOSuggestions_def Let_def if_push cong: let_weak_cong)

lemma suggestions_general_eq:
  "s_general (getSEOSuggestions text) =
     (if calculateWordCount text < 300
      then [js ''Consider adding more content. Articles with 1000+ words tend to perform better in search results.'']
      else [])
     @ [js ''Include external links to authoritative sources to improve credibility.'',
        js ''Add internal links to other relevant content on your site.'']"
  by (simp add: getSEOSuggestions_def Let_def if_push cong: let_weak_cong)

subsection \<open>Texts without letters and without heading markup\<close>














subsection \<open>No operation fails\<close>




subsection \<open>Substrings and the suggestions for given results\<close>

lemma startsWith_iff: "startsWith s t \<longleftrightarrow> (\<exists>after. s = t @ after)"
  by (induction s t rule: startsWith.induct) auto

lemma includes_js_iff: "includes_js s t \<longleftrightarrow> containsText s t"
proof (induction s)
  case Nil
  then show ?case by (auto simp: containsText_def)
next
  case (Cons c cs)
  have "containsText (c # cs) t \<longleftrightarrow> startsWith (c # cs) t \<or> containsText cs t"
  proof
    assume "containsText (c # cs) t"
    then obtain b a where e: "c # cs = b @ t @ a" by (auto simp: containsText_def)
    show "startsWith (c # cs) t \<or> containsText cs t"
    proof (cases b)
      case Nil
      with e show ?thesis by (auto simp: startsWith_iff)
    next
      case (Cons x b')
      with e have "cs = b' @ t @ a" by simp
      then show ?thesis by (auto simp: containsText_def)
    qed
  next
    assume "startsWith (c # cs) t \<or> containsText cs t"
    then show "containsText (c # cs) t"
    proof
      assume "startsWith (c # cs) t"
      then obtain a where "c # cs = [] @ t @ a" by (auto simp: startsWith_iff)
      then show ?thesis unfolding containsText_def by blast
    next
      assume "containsText cs t"
      then obtain b a where "cs = b @ t @ a" by (auto simp: containsText_def)
      then have "c # cs = (c # b) @ t @ a" by simp
      then show ?thesis unfolding containsText_def by blast
    qed
  qed
  with Cons show ?case by simp
qed

lemma top3_cases:
  "(if length ks < 3 then [a] else [p @ join sep (take 3 ks) @ q]) =
   (case ks of k1 # k2 # k3 # rest \<Rightarrow> [p @ k1 @ sep @ k2 @ sep @ k3 @ q] | _ \<Rightarrow> [a])"
  by (auto split: list.splits)

lemma pushSuggestions_fields:
  \<open>s_readability (pushSuggestions text wc score kws h1 sub) =
     (if score < 50
      then [js ''Use shorter sentences to improve readability.'',
            js ''Break up long paragraphs into smaller ones.'']
      else [])
     @ (if includes_js text (js ''very'') \<or> includes_js text (js ''really'')
        then [js ''Replace generic intensifiers like "very" and "really" with more specific words.'']
        else [])\<close>
  \<open>s_keywords (pushSuggestions text wc score kws h1 sub) =
     (if length kws < 3
      then [js ''Include more relevant keywords throughout your content.'']
      else [js ''Consider focusing on these keywords: '' @ join (js '', '') (take 3 kws) @ js ''.''])\<close>
  \<open>s_structure (pushSuggestions text wc score kws h1 sub) =
     (if h1 then [] else [js ''Add a clear H1 title to your content.''])
     @ (if sub then []
        else [js ''Add subheadings (H2, H3) to break up your content and improve structure.''])\<close>
  \<open>s_general (pushSuggestions text wc score kws h1 sub) =
     (if wc < 300
      then [js ''Consider adding more content. Articles with 1000+ words tend to perform better in search results.'']
      else [])
     @ [js ''Include external links to authoritative sources to improve credibility.'',
        js ''Add internal links to other relevant content on your site.'']\<close>
  by (simp_all add: pushSuggestions_def Let_def if_push cong: let_weak_cong)

lemma getSEOSuggestions_push:
  "getSEOSuggestions text =
     pushSuggestions text (calculateWordCount text) (calculateReadability text)
       (kw_keywords (analyzeKeywords text)) (hasH1 (analyzeHeadings text))
       (hasSubheadings (analyzeHeadings text))"
  by (rule suggestions.equality)
     (simp_all add: pushSuggestions_fields suggestions_readability_eq suggestions_keywords_eq
        suggestions_structure_eq suggestions_general_eq)

section \<open>The claims\<close>




text \<open>
  Claim C2: for a text of three words without \<open>.\<close>, \<open>!\<close> or \<open>?\<close>, splitting on
  \<open>[.!?]+\<close> gives one segment (the text itself), so the sentence count is 1 and the
  score is the formula's value for 3 words and 1 sentence, clamped to \<open>[0, 100]\<close>.
  Three words: \<open>calculateWordCount\<close> is 3.
\<close>

theorem readability_no_terminal_punctuation:
  assumes "\<forall>c \<in> set text. \<not> isSentenceEnd c" and "calculateWordCount text = 3"
  shows "split sentencePattern text = [text] \<and> readabilitySentences text = 1 \<and>
         calculateReadability text =
           max 0 (min 100 (100 - 3 / 1 * 1.8 - real (readabilityCharacters text) / 3 * 8))"
proof -
  have s: "split sentencePattern text = [text]"
    using assms(1) by (simp add: sentencePattern_def split_no_separator)
  then have n: "readabilitySentences text = 1" by (simp add: readabilitySentences_def)
  from assms(2) have w: "readabilityWords text = 3"
    by (simp add: calculateWordCount_eq split: if_splits)
  show ?thesis using s n w by (simp add: calculateReadability_formula)
qed

theorem readability_no_terminal_punctuation_witness:
  "list_all (\<lambda>c. \<not> isSentenceEnd c) (js ''the quick fox'') \<and>
   calculateWordCount (js ''the quick fox'') = 3 \<and>
   readabilitySentences (js ''the quick fox'') = 1 \<and>
   calculateReadability (js ''the quick fox'') = 979 / 15"
proof -
  have h1: "\<forall>c \<in> set (js ''the quick fox''). \<not> isSentenceEnd c"
    by (simp add: class_defs)
  have h2: "calculateWordCount (js ''the quick fox'') = 3"
    by (simp add: calculateWordCount_def trim_def class_defs engine_defs)
  have c: "readabilityCharacters (js ''the quick fox'') = 11"
    by (simp add: readabilityCharacters_def class_defs engine_defs)
  from readability_no_terminal_punctuation[OF h1 h2] h1 h2 c
  show ?thesis by (simp add: list_all_iff)
qed

text \<open>
  Claim C3: for every text, splitting the trimmed text on white space and splitting the
  text on \<open>[.!?]+\<close> each give at least one element, so the guard
  \<open>sentences === 0 || words === 0\<close> of \<open>calculateReadability\<close> never holds; a text of
  white space only (the empty text included) counts as 1 word of 0 characters and
  scores \<open>100 - 1 * 1.8 - 0 * 8 = 98.2\<close>.
\<close>

theorem readability_guard_unreachable:
  "split wsPattern (trim text) \<noteq> [] \<and> split sentencePattern text \<noteq> [] \<and>
   1 \<le> readabilityWords text \<and> 1 \<le> readabilitySentences text \<and>
   \<not> (readabilitySentences text = 0 \<or> readabilityWords text = 0) \<and>
   ((\<forall>c \<in> set text. isWhiteSpace c) \<longrightarrow>
      readabilityWords text = 1 \<and> readabilityCharacters text = 0 \<and>
      calculateReadability text = 100 - 1 * 1.8 - 0 * 8 \<and> calculateReadability text = 98.2)"
proof -
  have a: "split wsPattern (trim text) \<noteq> []" "split sentencePattern text \<noteq> []"
    by (simp_all add: wsPattern_def sentencePattern_def split_plus_nonempty)
  have b: "1 \<le> readabilityWords text" "1 \<le> readabilitySentences text"
    by (rule readabilityWords_pos, rule readabilitySentences_pos)
  then have c: "\<not> (readabilitySentences text = 0 \<or> readabilityWords text = 0)" by simp
  have d: "readabilityWords text = 1 \<and> readabilityCharacters text = 0 \<and>
      calculateReadability text = 100 - 1 * 1.8 - 0 * 8 \<and> calculateReadability text = 98.2"
    if "\<forall>c \<in> set text. isWhiteSpace c"
    using that
    by (simp add: readabilityWords_blank readabilityCharacters_blank calculateReadability_blank)
  from a b c d show ?thesis by blast
qed

theorem readability_guard_unreachable_witness:
  "list_all isWhiteSpace (js ''   '') \<and> readabilityWords (js ''   '') = 1 \<and>
   readabilityCharacters (js ''   '') = 0 \<and> calculateReadability (js ''   '') = 98.2"
proof -
  have h: "\<forall>c \<in> set (js ''   ''). isWhiteSpace c" by (simp add: class_defs)
  from readability_guard_unreachable[of "js ''   ''"] h show ?thesis
    by (simp add: list_all_iff)
qed

text \<open>
  Claim C4: for every text, the readability score, the keyword score and the headings
  score lie in \<open>[0, 100]\<close>.
\<close>

theorem scores_in_range:
  "0 \<le> calculateReadability text \<and> calculateReadability text \<le> 100 \<and>
   0 \<le> kw_score (analyzeKeywords text) \<and> kw_score (analyzeKeywords text) \<le> 100 \<and>
   0 \<le> h_score (analyzeHeadings text) \<and> h_score (analyzeHeadings text) \<le> 100"
proof -
  have r: "0 \<le> calculateReadability text \<and> calculateReadability text \<le> 100"
    by (simp add: calculateReadability_def Let_def)
  have k: "0 \<le> kw_score (analyzeKeywords text) \<and> kw_score (analyzeKeywords text) \<le> 100"
    by (simp add: analyzeKeywords_def Let_def)
  have h: "0 \<le> h_score (analyzeHeadings text) \<and> h_score (analyzeHeadings text) \<le> 100"
    by (simp add: analyzeHeadings_def Let_def)
  from r k h show ?thesis by simp
qed

text \<open>
  Claim C5: for every text, the headings score is one of 0, 50 and 100; it is 100 exactly
  when the text has a match of the top-level pattern and a match of the sub-heading
  pattern; and the text \<open>"# Title\n\nThis is a short sentence. This is another short
  sentence."\<close> has a top-level heading, no sub-heading and the score 50.
\<close>

theorem analyzeHeadings_score:
  "h_score (analyzeHeadings text) \<in> {0, 50, 100} \<and>
   (h_score (analyzeHeadings text) = 100 \<longleftrightarrow>
      test h1Pattern text \<and> match_g subheadingPattern text \<noteq> None) \<and>
   hasH1 (analyzeHeadings text) = test h1Pattern text \<and>
   hasSubheadings (analyzeHeadings text) = (match_g subheadingPattern text \<noteq> None) \<and>
   analyzeHeadings
     (js ''# Title\<newline>\<newline>This is a short sentence. This is another short sentence.'') =
     \<lparr> h_score = 50, hasH1 = True, hasSubheadings = False \<rparr>"
proof -
  have m: "(case match_g subheadingPattern text of None \<Rightarrow> False | Some ms \<Rightarrow> 0 < length ms)
      = (match_g subheadingPattern text \<noteq> None)"
    by (auto simp: match_g_def split: option.splits list.splits)
  have g: "h_score (analyzeHeadings text) \<in> {0, 50, 100} \<and>
   (h_score (analyzeHeadings text) = 100 \<longleftrightarrow>
      test h1Pattern text \<and> match_g subheadingPattern text \<noteq> None) \<and>
   hasH1 (analyzeHeadings text) = test h1Pattern text \<and>
   hasSubheadings (analyzeHeadings text) = (match_g subheadingPattern text \<noteq> None)"
    unfolding analyzeHeadings_def Let_def m by simp
  have e: "analyzeHeadings
     (js ''# Title\<newline>\<newline>This is a short sentence. This is another short sentence.'') =
     \<lparr> h_score = 50, hasH1 = True, hasSubheadings = False \<rparr>"
    by (simp add: analyzeHeadings_def class_defs engine_defs Let_def)
  from g e show ?thesis by blast
qed

text \<open>
  Claim C6: when the text has a qualifying token, the keyword score is
  \<open>min(100, distinct / total * 150)\<close>, over the qualifying tokens of the text; for
  \<open>"cat cat cat dog dog bird"\<close> the keywords are \<open>cat\<close>, \<open>dog\<close>, \<open>bird\<close> and the score is
  \<open>(3 / 6) * 150 = 75\<close>. The qualifying tokens are the matches of \<open>/\b[a-z]{3,}\b/g\<close> in
  the lower-cased text.
\<close>

theorem analyzeKeywords_diversity_score:
  "(keywordTokens text \<noteq> [] \<longrightarrow>
      kw_score (analyzeKeywords text) =
        min 100 (real (card (set (keywordTokens text))) / real (length (keywordTokens text)) * 150)) \<and>
   analyzeKeywords (js ''cat cat cat dog dog bird'') =
     \<lparr> kw_score = 3 / 6 * 150, kw_keywords = [js ''cat'', js ''dog'', js ''bird''] \<rparr> \<and>
   kw_score (analyzeKeywords (js ''cat cat cat dog dog bird'')) = 75"
proof -
  have e: "analyzeKeywords (js ''cat cat cat dog dog bird'') =
     \<lparr> kw_score = 3 / 6 * 150, kw_keywords = [js ''cat'', js ''dog'', js ''bird''] \<rparr>"
    by (simp only: analyzeKeywords_def Let_def tokens_cat) (simp add: object_defs js_def)
  then have "kw_score (analyzeKeywords (js ''cat cat cat dog dog bird'')) = 75" by simp
  with e show ?thesis by (simp add: analyzeKeywords_score)
qed

theorem analyzeKeywords_diversity_score_witness:
  "keywordTokens (js ''cat cat cat dog dog bird'') \<noteq> [] \<and>
   card (set (keywordTokens (js ''cat cat cat dog dog bird''))) = 3 \<and>
   length (keywordTokens (js ''cat cat cat dog dog bird'')) = 6 \<and>
   kw_score (analyzeKeywords (js ''cat cat cat dog dog bird'')) = min 100 (3 / 6 * 150)"
proof -
  have c: "card (set (keywordTokens (js ''cat cat cat dog dog bird''))) = 3"
    by (simp only: tokens_cat) (simp add: js_def)
  have l: "length (keywordTokens (js ''cat cat cat dog dog bird'')) = 6"
    by (simp add: tokens_cat)
  have n: "keywordTokens (js ''cat cat cat dog dog bird'') \<noteq> []"
    by (simp add: tokens_cat)
  from analyzeKeywords_diversity_score[of "js ''cat cat cat dog dog bird''"] n
  have "kw_score (analyzeKeywords (js ''cat cat cat dog dog bird'')) =
        min 100 (real (card (set (keywordTokens (js ''cat cat cat dog dog bird'')))) /
                 real (length (keywordTokens (js ''cat cat cat dog dog bird''))) * 150)"
    by blast
  with c l n show ?thesis by simp
qed

text \<open>
  Claim C7: for every text the keyword list has at most 5 entries, is in descending order
  of token frequency, and holds only lower-case alphabetic tokens of length 3 or more.
  The length and the shape of the tokens hold for every text, and the order holds for
  every text without the token \<open>constructor\<close>. The order
  fails on \<open>"constructor bbb bbb"\<close>: the first read of \<open>keywordCounts["constructor"]\<close>
  finds the function \<open>Object\<close> on the prototype, \<open>+ 1\<close> turns it into a string, the
  comparison \<open>b[1] - a[1]\<close> is \<open>NaN\<close> and the sort leaves \<open>constructor\<close> (frequency 1)
  before \<open>bbb\<close> (frequency 2).
\<close>

theorem analyzeKeywords_constructor_order:
  "keywordTokens (js ''constructor bbb bbb'') = [js ''constructor'', js ''bbb'', js ''bbb''] \<and>
   keywordCounts (keywordTokens (js ''constructor bbb bbb'')) =
     [(js ''constructor'', FunText (js ''Object'') 1), (js ''bbb'', Num 2)] \<and>
   kw_keywords (analyzeKeywords (js ''constructor bbb bbb'')) = [js ''constructor'', js ''bbb''] \<and>
   count_list (keywordTokens (js ''constructor bbb bbb'')) (js ''constructor'') = 1 \<and>
   count_list (keywordTokens (js ''constructor bbb bbb'')) (js ''bbb'') = 2"
proof -
  have c: "keywordCounts [js ''constructor'', js ''bbb'', js ''bbb''] =
     [(js ''constructor'', FunText (js ''Object'') 1), (js ''bbb'', Num 2)]"
    by (simp add: object_defs js_def)
  have k: "kw_keywords (analyzeKeywords (js ''constructor bbb bbb'')) = [js ''constructor'', js ''bbb'']"
    by (simp only: analyzeKeywords_def Let_def tokens_constructor) (simp add: object_defs js_def)
  have n: "count_list [js ''constructor'', js ''bbb'', js ''bbb''] (js ''constructor'') = 1"
    "count_list [js ''constructor'', js ''bbb'', js ''bbb''] (js ''bbb'') = 2"
    by (simp_all add: js_def)
  from c k n show ?thesis by (simp only: tokens_constructor)
qed

text \<open>
  Claim C8: the suggestions are those of the rule table, for every text and for every
  word count, readability score, keyword list and pair of heading flags that the
  analysis calls return: the two shorter-sentences and shorter-paragraphs suggestions
  exactly when the score is below 50, then the intensifier suggestion exactly when the
  text contains \<open>very\<close> or \<open>really\<close> as a substring; the include-more-keywords
  suggestion when fewer than 3 keywords are returned and otherwise the focusing
  suggestion with the first 3 keywords separated by a comma and a space; the H1 and the
  subheading suggestion exactly when the respective heading is absent; the
  add-more-content suggestion exactly when the word count is below 300, then always the
  external-links and the internal-links suggestion. The texts of the source begin as
  the specification abridges them.
\<close>

theorem suggestions_rule_table:
  "pushSuggestions text wordCount score keywords hasTopLevel hasSub =
     ruleTable codeTexts text wordCount score keywords hasTopLevel hasSub \<and>
   (\<exists>rest. t_moreKeywords codeTexts = js ''Include more relevant keywords'' @ rest) \<and>
   (\<exists>rest. t_addH1 codeTexts = js ''Add a clear H1 title'' @ rest) \<and>
   (\<exists>rest. t_addSubheadings codeTexts = js ''Add subheadings'' @ rest) \<and>
   (\<exists>rest. t_moreContent codeTexts = js ''Consider adding more content'' @ rest)"
proof -
  have k: "s_keywords (pushSuggestions text wordCount score keywords hasTopLevel hasSub) =
      s_keywords (ruleTable codeTexts text wordCount score keywords hasTopLevel hasSub)"
    unfolding pushSuggestions_fields top3_cases
    by (simp add: ruleTable_def codeTexts_def split: list.splits)
  have t: "pushSuggestions text wordCount score keywords hasTopLevel hasSub =
     ruleTable codeTexts text wordCount score keywords hasTopLevel hasSub"
    by (rule suggestions.equality)
       (simp_all add: k, simp_all add: pushSuggestions_fields includes_js_iff ruleTable_def
          codeTexts_def)
  have p: "\<exists>rest. t_moreKeywords codeTexts = js ''Include more relevant keywords'' @ rest"
    "\<exists>rest. t_addH1 codeTexts = js ''Add a clear H1 title'' @ rest"
    "\<exists>rest. t_addSubheadings codeTexts = js ''Add subheadings'' @ rest"
    "\<exists>rest. t_moreContent codeTexts = js ''Consider adding more content'' @ rest"
    by (simp_all add: codeTexts_def js_def)
  from t p show ?thesis by blast
qed



text \<open>
  Claim C10: for every text the keywords category has exactly one suggestion, and the
  general category ends with the external-links suggestion followed by the
  internal-links suggestion, so it has at least two; the readability and the structure
  category can be empty, as they are for \<open>"# Title\n## Sub\nShort text here."\<close>.
\<close>

theorem getSEOSuggestions_keywords_general:
  "length (s_keywords (getSEOSuggestions text)) = 1 \<and>
   (\<exists>before. s_general (getSEOSuggestions text) =
      before @ [js ''Include external links to authoritative sources to improve credibility.'',
                js ''Add internal links to other relevant content on your site.'']) \<and>
   2 \<le> length (s_general (getSEOSuggestions text)) \<and>
   s_readability (getSEOSuggestions (js ''# Title\<newline>## Sub\<newline>Short text here.'')) = [] \<and>
   s_structure (getSEOSuggestions (js ''# Title\<newline>## Sub\<newline>Short text here.'')) = []"
proof -
  have k: "length (s_keywords (getSEOSuggestions text)) = 1"
    by (simp add: suggestions_keywords_eq)
  have g: "\<exists>before. s_general (getSEOSuggestions text) =
      before @ [js ''Include external links to authoritative sources to improve credibility.'',
                js ''Add internal links to other relevant content on your site.'']"
    unfolding suggestions_general_eq by (rule exI) (rule refl)
  have l: "2 \<le> length (s_general (getSEOSuggestions text))"
    by (simp add: suggestions_general_eq)
  have r: "calculateReadability (js ''# Title\<newline>## Sub\<newline>Short text here.'') = 4559 / 70"
    by (simp add: readability_defs class_defs engine_defs)
  have v: "\<not> includes_js (js ''# Title\<newline>## Sub\<newline>Short text here.'') (js ''very'')"
    "\<not> includes_js (js ''# Title\<newline>## Sub\<newline>Short text here.'') (js ''really'')"
    by (simp_all add: js_def)
  have h: "analyzeHeadings (js ''# Title\<newline>## Sub\<newline>Short text here.'') =
      \<lparr> h_score = 100, hasH1 = True, hasSubheadings = True \<rparr>"
    by (simp add: analyzeHeadings_def class_defs engine_defs Let_def)
  have e1: "s_readability (getSEOSuggestions (js ''# Title\<newline>## Sub\<newline>Short text here.'')) = []"
    by (simp only: suggestions_readability_eq r v) simp
  have e2: "s_structure (getSEOSuggestions (js ''# Title\<newline>## Sub\<newline>Short text here.'')) = []"
    by (simp only: suggestions_structure_eq h) simp
  from k g l e1 e2 show ?thesis by blast
qed

end
